theory Spec2Isabelle
  imports Complex_Main
begin

section \<open>Python strings\<close>

text \<open>
  A Python \<open>str\<close> is a sequence of Unicode code points, here a list of natural numbers.
  \<open>py_ord\<close> is Python's \<open>ord\<close> on the characters that HOL can write, and \<open>cps\<close> gives
  the code points of a string literal.
\<close>

type_synonym pystr = "nat list"

definition py_ord :: "char \<Rightarrow> nat" where
  "py_ord c = of_char c"

definition cps :: "string \<Rightarrow> pystr" where
  "cps s = map py_ord s"

text \<open>
  The whitespace of \<open>str.isspace\<close>, \<open>str.strip()\<close> and \<open>str.split()\<close>: the code points
  U+0009..U+000D, U+001C..U+001F, U+0020, U+0085, U+00A0, U+1680, U+2000..U+200A, U+2028,
  U+2029, U+202F, U+205F and U+3000.
\<close>

definition py_isspace :: "nat \<Rightarrow> bool" where
  "py_isspace c =
     (c \<in> set [0x09, 0x0A, 0x0B, 0x0C, 0x0D, 0x1C, 0x1D, 0x1E, 0x1F, 0x20, 0x85, 0xA0,
               0x1680, 0x2028, 0x2029, 0x202F, 0x205F, 0x3000]
      \<or> (0x2000 \<le> c \<and> c \<le> 0x200A))"

text \<open>
  \<open>str.lower()\<close> follows the case tables of Unicode, which are not part of the sources.
  It is a parameter of every function that calls it: \<open>lower s\<close> is \<open>s.lower()\<close>.
\<close>

type_synonym lower_fn = "pystr \<Rightarrow> pystr"

text \<open>\<open>s.strip()\<close>: drop leading and trailing whitespace.\<close>

definition py_strip :: "pystr \<Rightarrow> pystr" where
  "py_strip s = rev (dropWhile py_isspace (rev (dropWhile py_isspace s)))"

text \<open>\<open>s.startswith(p)\<close> and the substring test \<open>w in s\<close>.\<close>

fun startswith :: "pystr \<Rightarrow> pystr \<Rightarrow> bool" where
  "startswith s [] = True"
| "startswith [] (p # ps) = False"
| "startswith (c # cs) (p # ps) = (c = p \<and> startswith cs ps)"

fun py_contains :: "pystr \<Rightarrow> pystr \<Rightarrow> bool" where
  "py_contains [] w = (w = [])"
| "py_contains (c # cs) w = (startswith (c # cs) w \<or> py_contains cs w)"

text \<open>
  \<open>s.replace(old, new)\<close> for a one-character \<open>old\<close>, the only form the chatbot uses
  (\<open>","\<close>, \<open>"."\<close> and \<open>" "\<close>): every occurrence of the character is replaced by \<open>new\<close>.
\<close>

fun py_replace :: "nat \<Rightarrow> pystr \<Rightarrow> pystr \<Rightarrow> pystr" where
  "py_replace old new [] = []"
| "py_replace old new (c # cs) =
     (if c = old then new @ py_replace old new cs else c # py_replace old new cs)"

text \<open>
  \<open>s.split()\<close> without arguments: runs of whitespace separate the words, and no empty
  word is produced. \<open>split_ws cur s\<close> scans \<open>s\<close> with the word collected so far in \<open>cur\<close>.
\<close>

fun split_ws :: "pystr \<Rightarrow> pystr \<Rightarrow> pystr list" where
  "split_ws cur [] = (if cur = [] then [] else [cur])"
| "split_ws cur (c # cs) =
     (if py_isspace c then (if cur = [] then split_ws [] cs else cur # split_ws [] cs)
      else split_ws (cur @ [c]) cs)"

definition py_split :: "pystr \<Rightarrow> pystr list" where
  "py_split s = split_ws [] s"

text \<open>\<open>s.split(sep)\<close> with a one-character separator: empty fields are kept.\<close>

fun py_split_on :: "nat \<Rightarrow> pystr \<Rightarrow> pystr list" where
  "py_split_on sep [] = [[]]"
| "py_split_on sep (c # cs) =
     (if c = sep then [] # py_split_on sep cs
      else (case py_split_on sep cs of
              [] \<Rightarrow> [[c]]
            | f # fs \<Rightarrow> (c # f) # fs))"

text \<open>\<open>sep.join(xs)\<close>.\<close>

fun py_join :: "pystr \<Rightarrow> pystr list \<Rightarrow> pystr" where
  "py_join sep [] = []"
| "py_join sep [x] = x"
| "py_join sep (x # y # ys) = x @ sep @ py_join sep (y # ys)"


section \<open>utils.py\<close>

definition SYMPTOMS :: "pystr list" where
  "SYMPTOMS =
     map cps
       [''fever'', ''cough'', ''sore_throat'', ''runny_nose'', ''headache'', ''fatigue'',
        ''nausea'', ''vomiting'', ''diarrhea'', ''abdominal_pain'', ''chest_pain'',
        ''shortness_of_breath'', ''dizziness'', ''leg_swelling'', ''bleeding'', ''rash'',
        ''joint_pain'', ''loss_of_smell'', ''loss_of_taste'', ''sore_eyes'']"

definition vectorize_symptoms :: "pystr list \<Rightarrow> int list" where
  "vectorize_symptoms toks = map (\<lambda>s. if s \<in> set toks then 1 else 0) SYMPTOMS"

definition emergency_terms :: "pystr list" where
  "emergency_terms =
     map cps
       [''cardiac_arrest'', ''heart_attack'', ''stroke'', ''severe_bleeding'',
        ''unconscious'', ''loss_of_consciousness'', ''difficulty_breathing'',
        ''severe_chest_pain'']"

text \<open>The \<open>for t in tokens\<close> loop of \<open>emergency_check\<close>: the first token that is a direct term.\<close>

fun scan_terms :: "pystr list \<Rightarrow> pystr option" where
  "scan_terms [] = None"
| "scan_terms (t # ts) = (if t \<in> set emergency_terms then Some t else scan_terms ts)"

definition compound_label :: pystr where
  "compound_label = cps ''chest_pain + shortness_of_breath''"

definition emergency_check :: "pystr list \<Rightarrow> bool \<times> pystr option" where
  "emergency_check toks =
     (case scan_terms toks of
        Some t \<Rightarrow> (True, Some t)
      | None \<Rightarrow>
          if cps ''chest_pain'' \<in> set toks
             \<and> (cps ''shortness_of_breath'' \<in> set toks \<or> cps ''dizziness'' \<in> set toks)
          then (True, Some compound_label)
          else (False, None))"

text \<open>
  \<open>get_emergency_advice\<close>: the advisory text is chosen by substring tests on the lowered
  term, in this order. Each constructor stands for one fixed text of the source.
\<close>

datatype advice =
  CardiacAdvice | StrokeAdvice | BleedingAdvice | UnconsciousAdvice | BreathingAdvice
  | CriticalAdvice

definition get_emergency_advice :: "lower_fn \<Rightarrow> pystr \<Rightarrow> advice" where
  "get_emergency_advice lower term0 =
     (let t = lower term0 in
      if py_contains t (cps ''cardiac'') \<or> py_contains t (cps ''heart'') then CardiacAdvice
      else if py_contains t (cps ''stroke'') then StrokeAdvice
      else if py_contains t (cps ''bleeding'') then BleedingAdvice
      else if py_contains t (cps ''unconscious'') then UnconsciousAdvice
      else if py_contains t (cps ''difficulty_breathing'') then BreathingAdvice
      else CriticalAdvice)"


section \<open>app.py: the prediction step\<close>

text \<open>
  The trained model and the label encoder are loaded from pickle files that are not part
  of the sources, so both are parameters: \<open>model v\<close> is \<open>model.predict_proba([v])[0]\<close>, the
  probability of every class for the feature vector \<open>v\<close>, and \<open>le i\<close> is
  \<open>le.inverse_transform([i])[0]\<close>, the label of class \<open>i\<close>. Probabilities are real numbers:
  the model stands for floats that are not NaN.
\<close>

type_synonym classifier = "int list \<Rightarrow> real list"
type_synonym label_decoder = "nat \<Rightarrow> pystr"

text \<open>
  \<open>sorted(xs, key=lambda x: x[1], reverse=True)\<close>. Python's sort is stable, with
  \<open>reverse=True\<close> too: elements with equal keys keep their order. The stable sort by
  descending key is computed by insertion from the right, where an element goes in front
  of the first element whose key is not greater than its own.
\<close>

fun insert_desc :: "nat \<times> real \<Rightarrow> (nat \<times> real) list \<Rightarrow> (nat \<times> real) list" where
  "insert_desc x [] = [x]"
| "insert_desc x (y # ys) = (if snd x < snd y then y # insert_desc x ys else x # y # ys)"

fun sorted_desc :: "(nat \<times> real) list \<Rightarrow> (nat \<times> real) list" where
  "sorted_desc [] = []"
| "sorted_desc (x # xs) = insert_desc x (sorted_desc xs)"

definition topk :: "real list \<Rightarrow> (nat \<times> real) list" where
  "topk proba = take 3 (sorted_desc (enumerate 0 proba))"

text \<open>
  The order of a ranking of (class index, probability) pairs: the higher probability
  first and, among equal probabilities, the lower class index first.
\<close>

definition ranked :: "nat \<times> real \<Rightarrow> nat \<times> real \<Rightarrow> bool" where
  "ranked a b = (snd b < snd a \<or> (snd a = snd b \<and> fst a < fst b))"

text \<open>
  The four lines shared by \<open>app.py\<close> (114-117) and \<open>main.py\<close> (72-75): vectorize, ask the
  classifier, keep the three best classes, decode their labels.
\<close>

definition classifier_preds ::
  "classifier \<Rightarrow> label_decoder \<Rightarrow> pystr list \<Rightarrow> (pystr \<times> real) list" where
  "classifier_preds model le toks =
     (let vec = vectorize_symptoms toks;
          proba = model vec
      in map (\<lambda>(i, p). (le i, p)) (topk proba))"

definition fever_preds :: "(pystr \<times> real) list" where
  "fever_preds =
     [(cps ''Common Cold'', 6 / 10), (cps ''Influenza'', 3 / 10), (cps ''COVID-19'', 1 / 10)]"

text \<open>The prediction of the Severity handler (\<open>app.py\<close>, lines 110-117), fever rule first.\<close>

definition predict ::
  "classifier \<Rightarrow> label_decoder \<Rightarrow> pystr list \<Rightarrow> (pystr \<times> real) list" where
  "predict model le toks =
     (if cps ''fever'' \<in> set toks \<and> cps ''leg_swelling'' \<notin> set toks then fever_preds
      else classifier_preds model le toks)"


section \<open>app.py: the session and the chat handler\<close>

text \<open>
  The Flask session is a dictionary; the handler uses the five keys below, and a field
  is \<open>None\<close> when its key is absent. \<open>session.clear()\<close> gives \<open>empty_session\<close>.
\<close>

record session =
  step :: "pystr option"
  tokens :: "pystr list option"
  duration :: "pystr option"
  severity :: "pystr option"
  preds :: "(pystr \<times> real) list option"

definition empty_session :: session where
  "empty_session =
     \<lparr>step = None, tokens = None, duration = None, severity = None, preds = None\<rparr>"

text \<open>
  The replies. A constructor stands for one fixed text of the source and carries the
  parts that vary: \<open>SymptomList l\<close> is the heading "Here are the symptoms I recognize:"
  followed by \<open>l\<close>; \<open>EmergencyReply t a\<close> quotes the matched term \<open>t\<close> and the advice \<open>a\<close>;
  \<open>Findings ps\<close> lists each condition of \<open>ps\<close> with its likelihood; \<open>Recommendations cs\<close>
  gives the catalogue text of \<open>get_recommendations\<close> for each condition of \<open>cs\<close>.
\<close>

datatype reply =
  PleaseDescribe
  | Welcome
  | HelloAgain
  | Goodbye
  | SymptomList pystr
  | NoSymptoms
  | NotRecognized
  | EmergencyReply pystr advice
  | AskDuration
  | AskSeverity
  | Findings "(pystr \<times> real) list"
  | Recommendations "pystr list"
  | NoWorries
  | YesOrNo
  | AskSymptoms
  | TakeRest
  | NotUnderstood

datatype py_error = KeyError | AttributeError

definition farewell_words :: "pystr list" where
  "farewell_words =
     map cps
       [''thank'', ''thanks'', ''thankyou'', ''bye'', ''goodbye'', ''see you'', ''take care'']"

definition greeting_words :: "pystr list" where
  "greeting_words =
     map cps [''hi'', ''hello'', ''hey'', ''start'', ''good morning'', ''good evening'']"

text \<open>The fifth phrase is \<open>i'm fine\<close> with the apostrophe U+2019.\<close>

definition negation_phrases :: "pystr list" where
  "negation_phrases =
     [cps ''no'', cps ''none'', cps ''nothing'', cps ''not really'',
      cps ''i'' @ [0x2019] @ cps ''m fine'',
      cps ''i am fine'', cps ''feeling good'', cps ''nothing serious'']"

definition yes_words :: "pystr list" where
  "yes_words =
     map cps
       [''yes'', ''y'', ''yeah'', ''sure'', ''ok'', ''okay'', ''of course'', ''please'',
        ''yes please'']"

definition no_words :: "pystr list" where
  "no_words = map cps [''no'', ''n'', ''nope'', ''not now'']"

definition more_yes_words :: "pystr list" where
  "more_yes_words = map cps [''yes'', ''y'', ''sure'', ''ok'', ''okay'']"

text \<open>Lines 77-79: the words of the sentence, the candidate tokens, the matched tokens.\<close>

definition extract_words :: "pystr \<Rightarrow> pystr list" where
  "extract_words user_input =
     py_split (py_replace (py_ord (CHR ''.'')) []
                 (py_replace (py_ord (CHR '','')) (cps '' '') user_input))"

definition extract_tokens :: "pystr \<Rightarrow> pystr list" where
  "extract_tokens user_input =
     map (\<lambda>w. py_replace (py_ord (CHR '' '')) (cps ''_'') (py_strip w))
       (filter (\<lambda>w. py_strip w \<noteq> []) (extract_words user_input))"

definition extract_matched :: "pystr \<Rightarrow> pystr list" where
  "extract_matched user_input = filter (\<lambda>t. t \<in> set SYMPTOMS) (extract_tokens user_input)"

text \<open>
  Step 1, lines 68-97. \<open>get_emergency_advice(None)\<close> would raise \<open>AttributeError\<close> at
  \<open>term.lower()\<close>.
\<close>

definition symptom_step :: "lower_fn \<Rightarrow> session \<Rightarrow> pystr \<Rightarrow> py_error + reply \<times> session" where
  "symptom_step lower s user_input =
     (if user_input \<in> set negation_phrases then Inr (NoSymptoms, empty_session)
      else
        let matched = extract_matched user_input in
        if matched = [] then Inr (NotRecognized, s)
        else
          (case emergency_check matched of
             (True, Some matched_term) \<Rightarrow>
               Inr (EmergencyReply matched_term (get_emergency_advice lower matched_term), s)
           | (True, None) \<Rightarrow> Inl AttributeError
           | (False, _) \<Rightarrow>
               Inr (AskDuration,
                    s\<lparr>tokens := Some matched, step := Some (cps ''duration'')\<rparr>)))"

text \<open>Step 2, lines 100-103.\<close>

definition duration_step :: "session \<Rightarrow> pystr \<Rightarrow> reply \<times> session" where
  "duration_step s user_input =
     (AskSeverity, s\<lparr>duration := Some user_input, step := Some (cps ''severity'')\<rparr>)"

text \<open>
  Step 3, lines 106-126. \<open>session["tokens"]\<close> raises \<open>KeyError\<close> when the key is absent;
  the exception ends the request, and the model does not follow the session after it.
\<close>

definition severity_step ::
  "classifier \<Rightarrow> label_decoder \<Rightarrow> session \<Rightarrow> pystr \<Rightarrow> py_error + reply \<times> session" where
  "severity_step model le s user_input =
     (case tokens s of
        None \<Rightarrow> Inl KeyError
      | Some toks \<Rightarrow>
          let ps = predict model le toks in
          Inr (Findings ps,
               s\<lparr>severity := Some user_input, preds := Some ps,
                 step := Some (cps ''ask_recommendations'')\<rparr>))"

text \<open>Step 4, lines 129-150.\<close>

definition ask_recommendations_step :: "session \<Rightarrow> pystr \<Rightarrow> reply \<times> session" where
  "ask_recommendations_step s user_input =
     (if list_ex (\<lambda>word. py_contains user_input word) yes_words then
        (Recommendations (map fst (case preds s of Some ps \<Rightarrow> ps | None \<Rightarrow> [])),
         s\<lparr>step := Some (cps ''more_symptoms'')\<rparr>)
      else if list_ex (\<lambda>word. py_contains user_input word) no_words then
        (NoWorries, s\<lparr>step := Some (cps ''more_symptoms'')\<rparr>)
      else (YesOrNo, s))"

text \<open>Step 5, lines 153-159.\<close>

definition more_symptoms_step :: "session \<Rightarrow> pystr \<Rightarrow> reply \<times> session" where
  "more_symptoms_step s user_input =
     (if list_ex (\<lambda>word. py_contains user_input word) more_yes_words then
        (AskSymptoms, s\<lparr>step := Some (cps ''symptom'')\<rparr>)
      else (TakeRest, empty_session))"

text \<open>
  \<open>chat\<close>: one POST to \<open>/chat\<close> with the session \<open>s\<close> and the text \<open>message\<close> (the empty
  string when the request has no \<open>message\<close>). The result is the reply and the session
  after the turn, or the exception that ends the request.
\<close>

definition chat ::
  "lower_fn \<Rightarrow> classifier \<Rightarrow> label_decoder \<Rightarrow> session \<Rightarrow> pystr
     \<Rightarrow> py_error + reply \<times> session" where
  "chat lower model le s message =
     (let user_input = lower (py_strip message) in
      if user_input = [] then Inr (PleaseDescribe, s)
      else if list_ex (\<lambda>word. py_contains user_input word) farewell_words then
        Inr (Welcome, empty_session)
      else if user_input \<in> set greeting_words then
        Inr (HelloAgain, empty_session\<lparr>step := Some (cps ''symptom'')\<rparr>)
      else if user_input \<in> set [cps ''exit'', cps ''quit''] then Inr (Goodbye, empty_session)
      else if user_input = cps ''list'' then
        Inr (SymptomList (py_join (cps '', '') SYMPTOMS), s)
      else
        let st = (case step s of Some x \<Rightarrow> x | None \<Rightarrow> cps ''symptom'') in
        if st = cps ''symptom'' then symptom_step lower s user_input
        else if st = cps ''duration'' then Inr (duration_step s user_input)
        else if st = cps ''severity'' then severity_step model le s user_input
        else if st = cps ''ask_recommendations'' then
          Inr (ask_recommendations_step s user_input)
        else if st = cps ''more_symptoms'' then Inr (more_symptoms_step s user_input)
        else Inr (NotUnderstood, s))"

text \<open>
  The fact about stored tokens that the Severity handler relies on: in the phases
  \<open>duration\<close> and \<open>severity\<close> the key \<open>tokens\<close> is present and holds a non-empty list of
  vocabulary tokens.
\<close>

definition tokens_stored :: "session \<Rightarrow> bool" where
  "tokens_stored s =
     (case tokens s of
        None \<Rightarrow> False
      | Some toks \<Rightarrow> toks \<noteq> [] \<and> list_all (\<lambda>t. t \<in> set SYMPTOMS) toks)"

definition session_inv :: "session \<Rightarrow> bool" where
  "session_inv s =
     ((step s = Some (cps ''duration'') \<or> step s = Some (cps ''severity''))
        \<longrightarrow> tokens_stored s)"

text \<open>
  A conversation: requests to \<open>/\<close> (which clears the session) and to \<open>/chat\<close>, handled one
  after the other from a session, up to the first exception.
\<close>

datatype request = Index | Chat pystr

fun handle ::
  "lower_fn \<Rightarrow> classifier \<Rightarrow> label_decoder \<Rightarrow> session \<Rightarrow> request \<Rightarrow> py_error + session" where
  "handle lower model le s Index = Inr empty_session"
| "handle lower model le s (Chat message) =
     (case chat lower model le s message of Inl e \<Rightarrow> Inl e | Inr (r, s') \<Rightarrow> Inr s')"

fun run ::
  "lower_fn \<Rightarrow> classifier \<Rightarrow> label_decoder \<Rightarrow> session \<Rightarrow> request list
     \<Rightarrow> py_error + session" where
  "run lower model le s [] = Inr s"
| "run lower model le s (q # qs) =
     (case handle lower model le s q of
        Inl e \<Rightarrow> Inl e
      | Inr s' \<Rightarrow> run lower model le s' qs)"


section \<open>main.py: the terminal loop\<close>

text \<open>Line 56: the comma-separated fields of the line, stripped, lowered, underscored.\<close>

definition cli_tokens :: "lower_fn \<Rightarrow> pystr \<Rightarrow> pystr list" where
  "cli_tokens lower user =
     map (\<lambda>t. py_replace (py_ord (CHR '' '')) (cps ''_'') (lower (py_strip t)))
       (py_split_on (py_ord (CHR '','')) user)"

text \<open>
  One round of \<open>chat_loop\<close> up to its prediction (lines 46-75), for the stripped line
  \<open>user\<close>. The duration and the severity that the round reads in between are not used by
  the prediction.
\<close>

datatype cli_outcome =
  CliAgain
  | CliExit
  | CliList pystr
  | CliEmergency pystr advice
  | CliFindings "(pystr \<times> real) list"

definition cli_round ::
  "lower_fn \<Rightarrow> classifier \<Rightarrow> label_decoder \<Rightarrow> pystr \<Rightarrow> py_error + cli_outcome" where
  "cli_round lower model le user =
     (if user = [] then Inr CliAgain
      else if lower user \<in> set [cps ''exit'', cps ''quit''] then Inr CliExit
      else if lower user = cps ''list'' then Inr (CliList (py_join (cps '', '') SYMPTOMS))
      else
        let toks = cli_tokens lower user in
        (case emergency_check toks of
           (True, Some matched_term) \<Rightarrow>
             Inr (CliEmergency matched_term (get_emergency_advice lower matched_term))
         | (True, None) \<Rightarrow> Inl AttributeError
         | (False, _) \<Rightarrow> Inr (CliFindings (classifier_preds model le toks))))"


section \<open>Stand-ins for the case tables, the pickled model and the label encoder\<close>

text \<open>
  For evaluating the handlers on concrete inputs. \<open>ascii_lower\<close> maps \<open>A..Z\<close> to \<open>a..z\<close>
  and leaves every other code point alone: it is \<open>str.lower()\<close> on ASCII text. The
  classifier answers every vector with the same four probabilities, two of them equal,
  and the decoder is that of the label encoder that \<open>train_model.py\<close> fits on the ten
  diseases (their names in sorted order).
\<close>

definition ascii_lower :: lower_fn where
  "ascii_lower s = map (\<lambda>c. if 0x41 \<le> c \<and> c \<le> 0x5A then c + 0x20 else c) s"

definition stub_model :: classifier where
  "stub_model vec = [2 / 10, 4 / 10, 0, 4 / 10]"

definition stub_classes :: "pystr list" where
  "stub_classes =
     map cps
       [''Allergic Reaction'', ''COVID-19'', ''Common Cold'', ''Conjunctivitis'',
        ''Deep Vein Thrombosis'', ''Gastroenteritis'', ''Hypertension Emergency'',
        ''Influenza'', ''Migraine'', ''Myocardial Infarction'']"

definition stub_le :: label_decoder where
  "stub_le i = (if i < length stub_classes then stub_classes ! i else [])"


section \<open>The extraction as the specification words it\<close>

text \<open>
  The fields of a string between whitespace characters, empty ones included, and the
  extraction in the words of the specification: lowercase, commas and periods replaced
  by spaces, split on whitespace, empty fragments discarded, vocabulary tokens kept.
\<close>

fun fragments :: "pystr \<Rightarrow> pystr list" where
  "fragments [] = [[]]"
| "fragments (c # cs) =
     (if py_isspace c then [] # fragments cs
      else (case fragments cs of
              [] \<Rightarrow> [[c]]
            | f # fs \<Rightarrow> (c # f) # fs))"

definition spec_extract :: "lower_fn \<Rightarrow> pystr \<Rightarrow> pystr list" where
  "spec_extract lower raw =
     filter (\<lambda>t. t \<in> set SYMPTOMS)
       (filter (\<lambda>w. w \<noteq> [])
          (fragments
             (map (\<lambda>c. if c = py_ord (CHR '','') \<or> c = py_ord (CHR ''.'')
                        then py_ord (CHR '' '') else c)
                (lower raw))))"

text \<open>The same with commas replaced by spaces and periods deleted.\<close>

definition spec_extract_deleting_periods :: "lower_fn \<Rightarrow> pystr \<Rightarrow> pystr list" where
  "spec_extract_deleting_periods lower raw =
     filter (\<lambda>t. t \<in> set SYMPTOMS)
       (filter (\<lambda>w. w \<noteq> [])
          (fragments
             (filter (\<lambda>c. c \<noteq> py_ord (CHR ''.''))
                (map (\<lambda>c. if c = py_ord (CHR '','') then py_ord (CHR '' '') else c)
                   (lower raw)))))"


section \<open>Code points of literals\<close>

lemma py_ord_eq_iff: "py_ord c = py_ord d \<longleftrightarrow> c = d"
  by (simp add: py_ord_def)

lemma cps_eq_iff: "cps s = cps t \<longleftrightarrow> s = t"
  by (simp add: cps_def py_ord_eq_iff inj_on_def inj_map_eq_map)

lemma cps_in_map: "cps w \<in> set (map cps ws) \<longleftrightarrow> w \<in> set ws"
  by (auto simp: cps_eq_iff)

lemma cps_eq_Nil: "cps s = [] \<longleftrightarrow> s = []"
  by (simp add: cps_def)

lemmas cps_simps = cps_eq_iff cps_in_map cps_eq_Nil


section \<open>The emergency detector\<close>

lemma scan_terms_None: "scan_terms toks = None \<longleftrightarrow> (\<forall>t \<in> set toks. t \<notin> set emergency_terms)"
  by (induction toks) auto

lemma scan_terms_Some:
  "scan_terms toks = Some t \<longleftrightarrow>
     (\<exists>pre post. toks = pre @ t # post \<and> (\<forall>x \<in> set pre. x \<notin> set emergency_terms)
        \<and> t \<in> set emergency_terms)"
proof (induction toks)
  case Nil
  then show ?case by simp
next
  case (Cons a toks)
  show ?case
  proof (cases "a \<in> set emergency_terms")
    case True
    have "(\<exists>pre post. a # toks = pre @ t # post \<and> (\<forall>x \<in> set pre. x \<notin> set emergency_terms)
             \<and> t \<in> set emergency_terms) \<longleftrightarrow> a = t"
    proof
      assume "\<exists>pre post. a # toks = pre @ t # post \<and> (\<forall>x \<in> set pre. x \<notin> set emergency_terms)
                \<and> t \<in> set emergency_terms"
      then obtain pre post where d: "a # toks = pre @ t # post"
        and n: "\<forall>x \<in> set pre. x \<notin> set emergency_terms" by blast
      show "a = t"
      proof (cases pre)
        case Nil
        with d show ?thesis by simp
      next
        case (Cons p ps)
        with d have "p = a" by simp
        with Cons n True show ?thesis by simp
      qed
    next
      assume "a = t"
      with True have "a # toks = [] @ t # toks \<and> (\<forall>x \<in> set []. x \<notin> set emergency_terms)
                        \<and> t \<in> set emergency_terms" by simp
      then show "\<exists>pre post. a # toks = pre @ t # post
                   \<and> (\<forall>x \<in> set pre. x \<notin> set emergency_terms) \<and> t \<in> set emergency_terms"
        by blast
    qed
    with True show ?thesis by auto
  next
    case False
    have "(\<exists>pre post. a # toks = pre @ t # post \<and> (\<forall>x \<in> set pre. x \<notin> set emergency_terms)
             \<and> t \<in> set emergency_terms)
          \<longleftrightarrow> (\<exists>pre post. toks = pre @ t # post \<and> (\<forall>x \<in> set pre. x \<notin> set emergency_terms)
             \<and> t \<in> set emergency_terms)" (is "?L \<longleftrightarrow> ?R")
    proof
      assume ?L
      then obtain pre post where d: "a # toks = pre @ t # post"
        and n: "\<forall>x \<in> set pre. x \<notin> set emergency_terms" and m: "t \<in> set emergency_terms"
        by blast
      show ?R
      proof (cases pre)
        case Nil
        with d m False show ?thesis by simp
      next
        case (Cons p ps)
        with d n have "toks = ps @ t # post" "\<forall>x \<in> set ps. x \<notin> set emergency_terms" by simp_all
        with m show ?thesis by blast
      qed
    next
      assume ?R
      then obtain pre post where d: "toks = pre @ t # post"
        and n: "\<forall>x \<in> set pre. x \<notin> set emergency_terms" and m: "t \<in> set emergency_terms"
        by blast
      from d n False have "a # toks = (a # pre) @ t # post"
        "\<forall>x \<in> set (a # pre). x \<notin> set emergency_terms" by simp_all
      with m show ?L by blast
    qed
    with False Cons.IH show ?thesis by simp
  qed
qed

text \<open>
  C1. Whenever a token list contains a direct critical term, \<open>emergency_check\<close> returns
  \<open>(True, t)\<close> for the first direct term \<open>t\<close> of the list: no token before \<open>t\<close> is a direct
  term. The compound rule plays no part in the result, whatever else the list contains.
\<close>

theorem C1_direct_term_first_hit:
  assumes "\<exists>t \<in> set toks. t \<in> set emergency_terms"
  shows "\<exists>pre t post. toks = pre @ t # post
           \<and> (\<forall>x \<in> set pre. x \<notin> set emergency_terms)
           \<and> t \<in> set emergency_terms
           \<and> emergency_check toks = (True, Some t)"
proof -
  from assms have "scan_terms toks \<noteq> None"
    by (simp add: scan_terms_None)
  then obtain t where s: "scan_terms toks = Some t" by blast
  then obtain pre post where "toks = pre @ t # post"
    "\<forall>x \<in> set pre. x \<notin> set emergency_terms" "t \<in> set emergency_terms"
    unfolding scan_terms_Some by blast
  moreover from s have "emergency_check toks = (True, Some t)"
    by (simp add: emergency_check_def)
  ultimately show ?thesis by blast
qed

theorem C1_direct_term_first_hit_witness:
  "(\<exists>t \<in> set [cps ''chest_pain'', cps ''dizziness'', cps ''stroke'', cps ''unconscious''].
      t \<in> set emergency_terms)
   \<and> (\<exists>pre t post.
         [cps ''chest_pain'', cps ''dizziness'', cps ''stroke'', cps ''unconscious'']
           = pre @ t # post
         \<and> (\<forall>x \<in> set pre. x \<notin> set emergency_terms)
         \<and> t \<in> set emergency_terms
         \<and> emergency_check
               [cps ''chest_pain'', cps ''dizziness'', cps ''stroke'', cps ''unconscious'']
             = (True, Some t))"
proof -
  have h: "\<exists>t \<in> set [cps ''chest_pain'', cps ''dizziness'', cps ''stroke'', cps ''unconscious''].
             t \<in> set emergency_terms"
    by (simp add: emergency_terms_def cps_simps)
  from h C1_direct_term_first_hit [OF h] show ?thesis by blast
qed

text \<open>
  C2. A token list with \<open>chest_pain\<close> and at least one of \<open>shortness_of_breath\<close> and
  \<open>dizziness\<close>, and with no direct critical term, makes \<open>emergency_check\<close> return
  \<open>(True, "chest_pain + shortness_of_breath")\<close>: the one literal label, also when it was
  \<open>dizziness\<close> that was present.
\<close>

theorem C2_compound_rule:
  assumes "cps ''chest_pain'' \<in> set toks"
    and "cps ''shortness_of_breath'' \<in> set toks \<or> cps ''dizziness'' \<in> set toks"
    and "\<forall>t \<in> set toks. t \<notin> set emergency_terms"
  shows "emergency_check toks = (True, Some (cps ''chest_pain + shortness_of_breath''))"
proof -
  from assms(3) have "scan_terms toks = None"
    by (simp add: scan_terms_None)
  with assms(1,2) show ?thesis
    by (simp add: emergency_check_def compound_label_def)
qed

theorem C2_compound_rule_witness:
  "cps ''chest_pain'' \<in> set [cps ''fever'', cps ''dizziness'', cps ''chest_pain'']
   \<and> (cps ''shortness_of_breath'' \<in> set [cps ''fever'', cps ''dizziness'', cps ''chest_pain'']
        \<or> cps ''dizziness'' \<in> set [cps ''fever'', cps ''dizziness'', cps ''chest_pain''])
   \<and> list_all (\<lambda>t. t \<notin> set emergency_terms)
         [cps ''fever'', cps ''dizziness'', cps ''chest_pain'']
   \<and> cps ''shortness_of_breath'' \<notin> set [cps ''fever'', cps ''dizziness'', cps ''chest_pain'']
   \<and> emergency_check [cps ''fever'', cps ''dizziness'', cps ''chest_pain'']
        = (True, Some (cps ''chest_pain + shortness_of_breath''))"
proof -
  let ?l = "[cps ''fever'', cps ''dizziness'', cps ''chest_pain'']"
  have a: "cps ''chest_pain'' \<in> set ?l" by simp
  have b: "cps ''shortness_of_breath'' \<in> set ?l \<or> cps ''dizziness'' \<in> set ?l" by simp
  have c: "\<forall>t \<in> set ?l. t \<notin> set emergency_terms"
    by (simp add: emergency_terms_def cps_simps)
  have c': "list_all (\<lambda>t. t \<notin> set emergency_terms) ?l"
    by (simp add: emergency_terms_def cps_simps)
  have d: "cps ''shortness_of_breath'' \<notin> set ?l" by (simp add: cps_eq_iff)
  from a b c' d C2_compound_rule [OF a b c] show ?thesis by (intro conjI)
qed

section \<open>The prediction step\<close>

lemma set_insert_desc: "set (insert_desc x ys) = insert x (set ys)"
  by (induction ys) auto

lemma length_insert_desc: "length (insert_desc x ys) = Suc (length ys)"
  by (induction ys) auto

lemma set_sorted_desc: "set (sorted_desc xs) = set xs"
  by (induction xs) (auto simp: set_insert_desc)

lemma length_sorted_desc: "length (sorted_desc xs) = length xs"
  by (induction xs) (auto simp: length_insert_desc)

lemma ranked_insert_desc:
  "sorted_wrt ranked ys \<Longrightarrow> \<forall>y \<in> set ys. fst x < fst y \<Longrightarrow> sorted_wrt ranked (insert_desc x ys)"
proof (induction ys)
  case Nil
  then show ?case by simp
next
  case (Cons y ys)
  show ?case
  proof (cases "snd x < snd y")
    case True
    with Cons show ?thesis
      by (auto simp: set_insert_desc ranked_def)
  next
    case False
    with Cons.prems show ?thesis
      by (fastforce simp: ranked_def)
  qed
qed

lemma ranked_sorted_desc_enumerate: "sorted_wrt ranked (sorted_desc (enumerate n proba))"
proof (induction proba arbitrary: n)
  case Nil
  then show ?case by simp
next
  case (Cons p proba)
  have "\<forall>y \<in> set (sorted_desc (enumerate (Suc n) proba)). fst (n, p) < fst y"
    by (auto simp: set_sorted_desc in_set_enumerate_eq)
  with Cons [of "Suc n"] show ?case
    by (simp add: ranked_insert_desc)
qed

lemma ranked_topk: "sorted_wrt ranked (topk proba)"
  unfolding topk_def by (rule sorted_wrt_take) (rule ranked_sorted_desc_enumerate)

lemma topk_members:
  "(i, p) \<in> set (topk proba) \<Longrightarrow> i < length proba \<and> proba ! i = p"
proof -
  assume "(i, p) \<in> set (topk proba)"
  then have "(i, p) \<in> set (sorted_desc (enumerate 0 proba))"
    unfolding topk_def by (rule in_set_takeD)
  then show ?thesis
    by (simp add: set_sorted_desc in_set_enumerate_eq)
qed

lemma length_topk: "length (topk proba) = min 3 (length proba)"
  by (simp add: topk_def length_sorted_desc)

lemma descending_classifier_preds:
  "sorted_wrt (\<lambda>a b. snd b \<le> snd a) (classifier_preds model le toks)"
proof -
  have "sorted_wrt (\<lambda>a b. snd b \<le> snd a) (topk (model (vectorize_symptoms toks)))"
    by (rule sorted_wrt_mono_rel [OF _ ranked_topk]) (auto simp: ranked_def)
  then show ?thesis
    by (simp add: classifier_preds_def sorted_wrt_map case_prod_unfold)
qed

lemma predict_fever_rule:
  "cps ''fever'' \<in> set toks \<Longrightarrow> cps ''leg_swelling'' \<notin> set toks
     \<Longrightarrow> predict model le toks = fever_preds"
  by (simp add: predict_def)

lemma topk_stub_model: "topk (stub_model vec) = [(1, 4 / 10), (3, 4 / 10), (0, 2 / 10)]"
  by (simp add: topk_def stub_model_def enumerate_eq_zip upt_rec)

lemma classifier_preds_stub:
  "classifier_preds stub_model stub_le toks =
     [(cps ''COVID-19'', 4 / 10), (cps ''Conjunctivitis'', 4 / 10), (cps ''Allergic Reaction'', 2 / 10)]"
  by (simp add: classifier_preds_def topk_stub_model stub_le_def stub_classes_def)

lemma ascii_lower_fever: "ascii_lower (cps ''fever'') = cps ''fever''"
  by (simp add: ascii_lower_def cps_def py_ord_def)

lemma cli_tokens_fever: "cli_tokens ascii_lower (cps ''fever'') = [cps ''fever'']"
  by (simp add: cli_tokens_def py_strip_def ascii_lower_def py_isspace_def cps_def py_ord_def)

lemma emergency_check_fever: "emergency_check [cps ''fever''] = (False, None)"
  by (simp add: emergency_check_def emergency_terms_def cps_simps)

lemma cli_round_fever:
  "cli_round ascii_lower model le (cps ''fever'')
     = Inr (CliFindings (classifier_preds model le [cps ''fever'']))"
  by (simp add: cli_round_def cli_tokens_fever emergency_check_fever ascii_lower_fever
      cps_simps)

text \<open>
  The Severity handler of \<open>app.py\<close> applies the fever rule whatever the classifier is: with
  \<open>fever\<close> and without \<open>leg_swelling\<close> among the stored tokens, the reply and the stored
  predictions are the fixed triple.
\<close>

lemma severity_step_fever_rule:
  assumes "tokens s = Some toks" and "cps ''fever'' \<in> set toks" and "cps ''leg_swelling'' \<notin> set toks"
  shows "severity_step model le s user_input =
           Inr (Findings fever_preds,
                s\<lparr>severity := Some user_input, preds := Some fever_preds,
                  step := Some (cps ''ask_recommendations'')\<rparr>)"
  using assms by (simp add: severity_step_def predict_fever_rule)

text \<open>
  C4. The fever rule: stored tokens with \<open>fever\<close> and without \<open>leg_swelling\<close> give the fixed
  triple, without the classifier. \<open>app.py\<close> does so (\<open>predict_fever_rule\<close>,
  \<open>severity_step_fever_rule\<close>). The terminal loop of \<open>main.py\<close> has no fever rule: for the
  line \<open>fever\<close> its tokens are \<open>[fever]\<close>, and the prediction is the classifier's, for
  every classifier; with the stand-in classifier it is not the fixed triple. (The line is
  ASCII, so the stand-in \<open>ascii_lower\<close> is \<open>str.lower\<close> on it.)
\<close>

theorem C4_cli_round_without_fever_rule:
  "cli_tokens ascii_lower (cps ''fever'') = [cps ''fever'']
   \<and> cli_round ascii_lower model le (cps ''fever'')
       = Inr (CliFindings (classifier_preds model le [cps ''fever'']))
   \<and> cli_round ascii_lower stub_model stub_le (cps ''fever'')
       = Inr (CliFindings [(cps ''COVID-19'', 4 / 10), (cps ''Conjunctivitis'', 4 / 10),
                           (cps ''Allergic Reaction'', 2 / 10)])
   \<and> cli_round ascii_lower stub_model stub_le (cps ''fever'') \<noteq> Inr (CliFindings fever_preds)
   \<and> predict stub_model stub_le [cps ''fever''] = fever_preds"
proof -
  have a: "cli_round ascii_lower stub_model stub_le (cps ''fever'')
       = Inr (CliFindings [(cps ''COVID-19'', 4 / 10), (cps ''Conjunctivitis'', 4 / 10),
                           (cps ''Allergic Reaction'', 2 / 10)])"
    by (simp add: cli_round_fever classifier_preds_stub)
  have b: "cli_round ascii_lower stub_model stub_le (cps ''fever'') \<noteq> Inr (CliFindings fever_preds)"
    unfolding a by (simp add: fever_preds_def cps_simps)
  have c: "predict stub_model stub_le [cps ''fever''] = fever_preds"
    by (simp add: predict_fever_rule cps_simps)
  from a b c cli_tokens_fever cli_round_fever [of model le] show ?thesis by blast
qed

text \<open>
  C5. Every list of predictions has at most three entries and is in non-increasing order
  of probability: the one of the Severity handler (\<open>predict\<close>) and the one of the terminal
  loop (\<open>classifier_preds\<close>). The classifier's entries are the decoded entries of \<open>topk\<close>,
  which pairs class indices with their own probabilities and puts, among equal
  probabilities, the lower class index first. The fixed fever triple has no ties.
\<close>

theorem C5_predictions_bounded_and_ranked:
  "length (predict model le toks) \<le> 3
   \<and> sorted_wrt (\<lambda>a b. snd b \<le> snd a) (predict model le toks)
   \<and> length (classifier_preds model le toks) \<le> 3
   \<and> sorted_wrt (\<lambda>a b. snd b \<le> snd a) (classifier_preds model le toks)
   \<and> classifier_preds model le toks
       = map (\<lambda>(i, p). (le i, p)) (topk (model (vectorize_symptoms toks)))
   \<and> sorted_wrt (\<lambda>a b. snd b < snd a \<or> (snd a = snd b \<and> fst a < fst b)) (topk proba)
   \<and> (\<forall>(i, p) \<in> set (topk proba). i < length proba \<and> proba ! i = p)
   \<and> sorted_wrt (\<lambda>a b. snd b < snd a) fever_preds"
proof -
  have l: "length (classifier_preds model le toks) \<le> 3"
    by (simp add: classifier_preds_def length_topk)
  have f: "sorted_wrt (\<lambda>a b. snd b < snd a) fever_preds" "length fever_preds = 3"
    by (simp_all add: fever_preds_def)
  have g: "sorted_wrt (\<lambda>a b. snd b \<le> snd a) fever_preds"
    by (simp add: fever_preds_def)
  have t: "sorted_wrt (\<lambda>a b. snd b < snd a \<or> (snd a = snd b \<and> fst a < fst b)) (topk proba)"
    using ranked_topk [of proba] by (simp add: ranked_def [abs_def])
  have m: "\<forall>(i, p) \<in> set (topk proba). i < length proba \<and> proba ! i = p"
    using topk_members by blast
  have d: "sorted_wrt (\<lambda>a b. snd b \<le> snd a) (classifier_preds model le toks)"
    by (rule descending_classifier_preds)
  have e: "classifier_preds model le toks
       = map (\<lambda>(i, p). (le i, p)) (topk (model (vectorize_symptoms toks)))"
    by (simp add: classifier_preds_def)
  have p1: "length (predict model le toks) \<le> 3"
    using l f(2) by (simp add: predict_def)
  have p2: "sorted_wrt (\<lambda>a b. snd b \<le> snd a) (predict model le toks)"
    using d g by (simp add: predict_def)
  from p1 p2 l d e t m f(1) show ?thesis by blast
qed

theorem C5_predictions_bounded_and_ranked_witness:
  "topk (stub_model []) = [(1, 4 / 10), (3, 4 / 10), (0, 2 / 10)]
   \<and> sorted_wrt (\<lambda>a b. snd b < snd a \<or> (snd a = snd b \<and> fst a < fst b)) (topk (stub_model []))
   \<and> list_all (\<lambda>(i, p). i < length (stub_model []) \<and> stub_model [] ! i = p)
         (topk (stub_model []))
   \<and> classifier_preds stub_model stub_le [cps ''cough'']
       = [(cps ''COVID-19'', 4 / 10), (cps ''Conjunctivitis'', 4 / 10), (cps ''Allergic Reaction'', 2 / 10)]
   \<and> length (classifier_preds stub_model stub_le [cps ''cough'']) \<le> 3
   \<and> sorted_wrt (\<lambda>a b. snd b \<le> snd a) (classifier_preds stub_model stub_le [cps ''cough''])"
proof -
  note w = C5_predictions_bounded_and_ranked [of stub_model stub_le "[cps ''cough'']" "stub_model []"]
  have a: "topk (stub_model []) = [(1, 4 / 10), (3, 4 / 10), (0, 2 / 10)]"
    by (rule topk_stub_model)
  have b: "classifier_preds stub_model stub_le [cps ''cough'']
       = [(cps ''COVID-19'', 4 / 10), (cps ''Conjunctivitis'', 4 / 10), (cps ''Allergic Reaction'', 2 / 10)]"
    by (rule classifier_preds_stub)
  from w have c: "sorted_wrt (\<lambda>a b. snd b < snd a \<or> (snd a = snd b \<and> fst a < fst b)) (topk (stub_model []))"
    by (elim conjE)
  from w have "\<forall>(i, p) \<in> set (topk (stub_model [])). i < length (stub_model []) \<and> stub_model [] ! i = p"
    by (elim conjE)
  then have d: "list_all (\<lambda>(i, p). i < length (stub_model []) \<and> stub_model [] ! i = p)
                  (topk (stub_model []))"
    by (simp only: list_all_iff)
  from w have e: "length (classifier_preds stub_model stub_le [cps ''cough'']) \<le> 3"
    by (elim conjE)
  from w have f: "sorted_wrt (\<lambda>a b. snd b \<le> snd a) (classifier_preds stub_model stub_le [cps ''cough''])"
    by (elim conjE)
  show ?thesis
    by (intro conjI a b c d e f)
qed

section \<open>The symptom extraction\<close>

lemma py_replace_char: "py_replace old [d] s = map (\<lambda>c. if c = old then d else c) s"
  by (induction s) auto

lemma py_replace_delete: "py_replace old [] s = filter (\<lambda>c. c \<noteq> old) s"
  by (induction s) auto

lemma py_replace_absent: "old \<notin> set s \<Longrightarrow> py_replace old new s = s"
  by (induction s) auto

lemma fragments_not_Nil: "fragments s \<noteq> []"
  by (induction s) (auto split: list.splits)

lemma split_ws_fragments:
  "split_ws cur s =
     filter (\<lambda>w. w \<noteq> []) (case fragments s of [] \<Rightarrow> [] | f # fs \<Rightarrow> (cur @ f) # fs)"
proof (induction s arbitrary: cur)
  case Nil
  then show ?case by simp
next
  case (Cons c cs)
  obtain f fs where f: "fragments cs = f # fs"
    using fragments_not_Nil [of cs] by (cases "fragments cs") auto
  show ?case
  proof (cases "py_isspace c")
    case True
    with Cons [of "[]"] f show ?thesis by simp
  next
    case False
    with Cons [of "cur @ [c]"] f show ?thesis by simp
  qed
qed

lemma py_split_fragments: "py_split s = filter (\<lambda>w. w \<noteq> []) (fragments s)"
proof -
  obtain f fs where "fragments s = f # fs"
    using fragments_not_Nil [of s] by (cases "fragments s") auto
  then show ?thesis
    by (simp add: py_split_def split_ws_fragments)
qed

lemma fragments_no_space: "w \<in> set (fragments s) \<Longrightarrow> c \<in> set w \<Longrightarrow> \<not> py_isspace c"
proof (induction s arbitrary: w)
  case Nil
  then show ?case by simp
next
  case (Cons a s)
  obtain f fs where f: "fragments s = f # fs"
    using fragments_not_Nil [of s] by (cases "fragments s") auto
  show ?case
  proof (cases "py_isspace a")
    case True
    with Cons show ?thesis by auto
  next
    case False
    with Cons.prems f have "w = a # f \<or> w \<in> set fs" by simp
    then show ?thesis
    proof
      assume "w = a # f"
      with Cons.prems(2) have "c = a \<or> c \<in> set f" by simp
      with False Cons.IH [of f] f show ?thesis by auto
    next
      assume "w \<in> set fs"
      with Cons.IH [of w] Cons.prems(2) f show ?thesis by simp
    qed
  qed
qed

lemma py_strip_no_space: "\<forall>c \<in> set w. \<not> py_isspace c \<Longrightarrow> py_strip w = w"
proof -
  assume n: "\<forall>c \<in> set w. \<not> py_isspace c"
  have d: "dropWhile py_isspace xs = xs" if "\<forall>c \<in> set xs. \<not> py_isspace c" for xs
    using that by (cases xs) auto
  from n have "dropWhile py_isspace w = w" by (rule d)
  moreover from n have "dropWhile py_isspace (rev w) = rev w" by (intro d) simp
  ultimately show ?thesis by (simp add: py_strip_def)
qed

lemma space_is_space: "py_isspace (py_ord (CHR '' ''))"
  by (simp add: py_isspace_def py_ord_def)

lemma extract_tokens_words: "extract_tokens user_input = extract_words user_input"
proof -
  have "\<And>w. w \<in> set (extract_words user_input) \<Longrightarrow>
          py_strip w \<noteq> [] \<and> py_replace (py_ord (CHR '' '')) (cps ''_'') (py_strip w) = w"
  proof -
    fix w
    assume "w \<in> set (extract_words user_input)"
    then have ne: "w \<noteq> []" and ns: "\<forall>c \<in> set w. \<not> py_isspace c"
      using fragments_no_space by (auto simp: extract_words_def py_split_fragments)
    from ns have s: "py_strip w = w" by (rule py_strip_no_space)
    from ns space_is_space have "py_ord (CHR '' '') \<notin> set w" by blast
    with s ne show "py_strip w \<noteq> [] \<and> py_replace (py_ord (CHR '' '')) (cps ''_'') (py_strip w) = w"
      by (simp add: py_replace_absent)
  qed
  then have "filter (\<lambda>w. py_strip w \<noteq> []) (extract_words user_input) = extract_words user_input"
    and "map (\<lambda>w. py_replace (py_ord (CHR '' '')) (cps ''_'') (py_strip w)) (extract_words user_input)
           = extract_words user_input"
    by (simp_all add: map_idI)
  then show ?thesis by (simp add: extract_tokens_def)
qed

lemma fragments_spaces_front:
  "\<forall>c \<in> set ws. py_isspace c \<Longrightarrow> fragments (ws @ s) = replicate (length ws) [] @ fragments s"
  by (induction ws) auto

lemma fragments_spaces_back:
  "\<forall>c \<in> set ws. py_isspace c \<Longrightarrow> fragments (s @ ws) = fragments s @ replicate (length ws) []"
proof (induction s)
  case Nil
  then show ?case by (induction ws) auto
next
  case (Cons a s)
  obtain f fs where f: "fragments s = f # fs"
    using fragments_not_Nil [of s] by (cases "fragments s") auto
  with Cons show ?case by simp
qed

lemma words_ignore_margins:
  assumes "\<forall>c \<in> set pre. py_isspace c" and "\<forall>c \<in> set post. py_isspace c"
  shows "filter (\<lambda>w. w \<noteq> []) (fragments (pre @ s @ post)) = filter (\<lambda>w. w \<noteq> []) (fragments s)"
  using assms by (simp add: fragments_spaces_front fragments_spaces_back)

lemma py_strip_margins:
  "\<exists>pre post. s = pre @ py_strip s @ post
     \<and> (\<forall>c \<in> set pre. py_isspace c) \<and> (\<forall>c \<in> set post. py_isspace c)"
proof -
  define d where "d = dropWhile py_isspace s"
  have 1: "s = takeWhile py_isspace s @ d"
    by (simp add: d_def)
  have "rev (dropWhile py_isspace (rev d)) @ rev (takeWhile py_isspace (rev d))
          = rev (takeWhile py_isspace (rev d) @ dropWhile py_isspace (rev d))"
    by (simp only: rev_append)
  also have "\<dots> = rev (rev d)"
    by (simp only: takeWhile_dropWhile_id)
  finally have 2: "d = py_strip s @ rev (takeWhile py_isspace (rev d))"
    by (simp add: py_strip_def d_def)
  have 3: "\<forall>c \<in> set (takeWhile py_isspace s). py_isspace c"
    by (auto dest: set_takeWhileD)
  have 4: "\<forall>c \<in> set (rev (takeWhile py_isspace (rev d))). py_isspace c"
    by (auto dest: set_takeWhileD)
  from 1 2 have "s = takeWhile py_isspace s @ py_strip s @ rev (takeWhile py_isspace (rev d))"
    by simp
  with 3 4 show ?thesis by blast
qed

lemma space_not_punct:
  "py_isspace c \<Longrightarrow> c \<noteq> py_ord (CHR '','') \<and> c \<noteq> py_ord (CHR ''.'')"
  by (auto simp: py_isspace_def py_ord_def)

lemma margins_unchanged:
  assumes "\<forall>c \<in> set ws. py_isspace c"
  shows "filter (\<lambda>c. c \<noteq> py_ord (CHR ''.''))
           (map (\<lambda>c. if c = py_ord (CHR '','') then py_ord (CHR '' '') else c) ws) = ws"
  using assms
proof (induction ws)
  case Nil
  then show ?case by simp
next
  case (Cons a ws)
  then have "py_isspace a" by simp
  then have "a \<noteq> py_ord (CHR '','')" "a \<noteq> py_ord (CHR ''.'')"
    using space_not_punct by blast+
  with Cons show ?case by simp
qed

text \<open>The words of a sentence are those of the stripped sentence.\<close>

lemma words_of_stripped:
  "filter (\<lambda>w. w \<noteq> [])
     (fragments (filter (\<lambda>c. c \<noteq> py_ord (CHR ''.''))
        (map (\<lambda>c. if c = py_ord (CHR '','') then py_ord (CHR '' '') else c) s)))
   = extract_words (py_strip s)"
proof -
  let ?h = "\<lambda>s. filter (\<lambda>c. c \<noteq> py_ord (CHR ''.''))
                   (map (\<lambda>c. if c = py_ord (CHR '','') then py_ord (CHR '' '') else c) s)"
  obtain pre post where d: "s = pre @ py_strip s @ post"
    and pre: "\<forall>c \<in> set pre. py_isspace c" and post: "\<forall>c \<in> set post. py_isspace c"
    using py_strip_margins [of s] by blast
  have "?h s = ?h (pre @ py_strip s @ post)"
    using d by simp
  also have "\<dots> = ?h pre @ ?h (py_strip s) @ ?h post"
    by simp
  also have "\<dots> = pre @ ?h (py_strip s) @ post"
    using pre post by (simp only: margins_unchanged)
  finally have "filter (\<lambda>w. w \<noteq> []) (fragments (?h s))
                  = filter (\<lambda>w. w \<noteq> []) (fragments (?h (py_strip s)))"
    using pre post by (simp only: words_ignore_margins)
  moreover have "extract_words (py_strip s)
                   = filter (\<lambda>w. w \<noteq> []) (fragments (?h (py_strip s)))"
    by (simp add: extract_words_def py_split_fragments py_replace_char py_replace_delete
        cps_def)
  ultimately show ?thesis by simp
qed

text \<open>\<open>s.split(",")\<close>: the fields join back to the string, and no field has a comma.\<close>

lemma py_split_on_not_Nil: "py_split_on sep s \<noteq> []"
  by (induction s) (auto split: list.splits)

lemma join_split_on: "py_join [sep] (py_split_on sep s) = s"
proof (induction s)
  case Nil
  then show ?case by simp
next
  case (Cons c cs)
  obtain f fs where f: "py_split_on sep cs = f # fs"
    using py_split_on_not_Nil [of sep cs] by (cases "py_split_on sep cs") auto
  show ?case
  proof (cases "c = sep")
    case True
    with Cons f show ?thesis by simp
  next
    case False
    with Cons f show ?thesis by (cases fs) auto
  qed
qed

lemma split_on_no_sep: "f \<in> set (py_split_on sep s) \<Longrightarrow> sep \<notin> set f"
proof (induction s arbitrary: f)
  case Nil
  then show ?case by simp
next
  case (Cons c cs)
  obtain g gs where g: "py_split_on sep cs = g # gs"
    using py_split_on_not_Nil [of sep cs] by (cases "py_split_on sep cs") auto
  show ?case
  proof (cases "c = sep")
    case True
    with Cons show ?thesis by auto
  next
    case False
    with Cons.prems g have "f = c # g \<or> f \<in> set gs" by simp
    with False Cons.IH [of g] Cons.IH [of f] g show ?thesis by auto
  qed
qed

lemma length_split_on: "length (py_split_on sep s) = Suc (length (filter (\<lambda>c. c = sep) s))"
proof (induction s)
  case Nil
  then show ?case by simp
next
  case (Cons c cs)
  obtain g gs where g: "py_split_on sep cs = g # gs"
    using py_split_on_not_Nil [of sep cs] by (cases "py_split_on sep cs") auto
  with Cons show ?case by simp
qed

lemma ascii_lower_fever_cough: "ascii_lower (cps ''fever.cough'') = cps ''fever.cough''"
  by (simp add: ascii_lower_def cps_def py_ord_def)

lemma strip_fever_cough: "py_strip (cps ''fever.cough'') = cps ''fever.cough''"
  by (simp add: py_strip_def py_isspace_def cps_def py_ord_def)

lemma words_fever_cough: "extract_words (cps ''fever.cough'') = [cps ''fevercough'']"
  by (simp add: extract_words_def py_split_def py_isspace_def cps_def py_ord_def)

lemma matched_fever_cough: "extract_matched (cps ''fever.cough'') = []"
  by (simp add: extract_matched_def extract_tokens_words words_fever_cough SYMPTOMS_def
      cps_simps)

lemma fragments_fever_cough:
  "fragments (map (\<lambda>c. if c = py_ord (CHR '','') \<or> c = py_ord (CHR ''.'')
                        then py_ord (CHR '' '') else c) (cps ''fever.cough''))
     = [cps ''fever'', cps ''cough'']"
  by (simp add: py_isspace_def cps_def py_ord_def)

lemma spec_fever_cough: "spec_extract ascii_lower (cps ''fever.cough'') = [cps ''fever'', cps ''cough'']"
  unfolding spec_extract_def ascii_lower_fever_cough fragments_fever_cough
  by (simp add: SYMPTOMS_def cps_simps)

lemma ascii_lower_fever_space_cough: "ascii_lower (cps ''fever cough'') = cps ''fever cough''"
  by (simp add: ascii_lower_def cps_def py_ord_def)

lemma fragments_fever_space_cough:
  "fragments (map (\<lambda>c. if c = py_ord (CHR '','') \<or> c = py_ord (CHR ''.'')
                        then py_ord (CHR '' '') else c) (cps ''fever cough''))
     = [cps ''fever'', cps ''cough'']"
  by (simp add: py_isspace_def cps_def py_ord_def)

lemma spec_fever_space_cough:
  "spec_extract ascii_lower (cps ''fever cough'') = [cps ''fever'', cps ''cough'']"
  unfolding spec_extract_def ascii_lower_fever_space_cough fragments_fever_space_cough
  by (simp add: SYMPTOMS_def cps_simps)

lemma cli_tokens_fever_space_cough:
  "cli_tokens ascii_lower (cps ''fever cough'') = [cps ''fever_cough'']"
  by (simp add: cli_tokens_def py_strip_def ascii_lower_def py_isspace_def cps_def py_ord_def)

text \<open>
  C6, as stated, fails, in both places it cites. The Symptom handler of \<open>app.py\<close> deletes
  periods (\<open>replace(".", "")\<close>), it does not replace them by spaces: for the input
  \<open>fever.cough\<close> it sees the one word \<open>fevercough\<close> and matches nothing, where the
  extraction of the claim gives \<open>fever\<close> and \<open>cough\<close>. The terminal loop of \<open>main.py\<close>
  (line 56) splits at commas only and does not filter by the vocabulary: for the line
  \<open>fever cough\<close> its one token is \<open>fever_cough\<close>.
\<close>

theorem C6_period_counterexample:
  "extract_matched (ascii_lower (py_strip (cps ''fever.cough''))) = []
   \<and> spec_extract ascii_lower (cps ''fever.cough'') = [cps ''fever'', cps ''cough'']
   \<and> cli_tokens ascii_lower (cps ''fever cough'') = [cps ''fever_cough'']
   \<and> spec_extract ascii_lower (cps ''fever cough'') = [cps ''fever'', cps ''cough'']"
  by (simp add: strip_fever_cough ascii_lower_fever_cough matched_fever_cough spec_fever_cough
      cli_tokens_fever_space_cough spec_fever_space_cough)

text \<open>
  C6, amended. The Symptom handler of \<open>app.py\<close> (lines 30 and 77-79) strips and lowercases
  the input, replaces commas by spaces, deletes periods, splits at whitespace, discards
  empty fragments, and keeps exactly the fragments that are in the Symptom Vocabulary,
  in the order met and with duplicates; the strip, the underscore replacement and the
  emptiness filter of line 78 change nothing. Where \<open>lower\<close> commutes with \<open>strip\<close> on the
  input (\<open>str.lower\<close> neither makes nor removes whitespace), the first strip changes
  nothing either. The terminal loop of \<open>main.py\<close> (line 56) takes the comma-separated
  fields of the line (they join back to the line, none holds a comma, there is one more
  than commas) and strips, lowercases and underscores each: every field is kept, with no
  vocabulary filter.
\<close>

theorem C6_extraction_deletes_periods:
  "extract_matched (lower (py_strip raw)) = spec_extract_deleting_periods lower (py_strip raw)
   \<and> (py_strip (lower raw) = lower (py_strip raw) \<longrightarrow>
        extract_matched (lower (py_strip raw)) = spec_extract_deleting_periods lower raw)
   \<and> cli_tokens lower line
       = map (\<lambda>f. map (\<lambda>c. if c = py_ord (CHR '' '') then py_ord (CHR ''_'') else c)
                     (lower (py_strip f)))
           (py_split_on (py_ord (CHR '','')) line)
   \<and> py_join [py_ord (CHR '','')] (py_split_on (py_ord (CHR '','')) line) = line
   \<and> (\<forall>f \<in> set (py_split_on (py_ord (CHR '','')) line). py_ord (CHR '','') \<notin> set f)
   \<and> length (cli_tokens lower line)
       = Suc (length (filter (\<lambda>c. c = py_ord (CHR '','')) line))"
proof -
  let ?h = "\<lambda>s. filter (\<lambda>c. c \<noteq> py_ord (CHR ''.''))
                   (map (\<lambda>c. if c = py_ord (CHR '','') then py_ord (CHR '' '') else c) s)"
  have w: "extract_words u = filter (\<lambda>w. w \<noteq> []) (fragments (?h u))" for u
    by (simp add: extract_words_def py_split_fragments py_replace_char py_replace_delete
        cps_def)
  have a: "extract_matched (lower (py_strip raw))
             = spec_extract_deleting_periods lower (py_strip raw)"
    by (simp add: extract_matched_def extract_tokens_words spec_extract_deleting_periods_def w)
  have b: "extract_matched (lower (py_strip raw)) = spec_extract_deleting_periods lower raw"
    if c: "py_strip (lower raw) = lower (py_strip raw)"
  proof -
    have "filter (\<lambda>w. w \<noteq> []) (fragments (?h (lower raw))) = extract_words (py_strip (lower raw))"
      by (rule words_of_stripped)
    with c show ?thesis
      by (simp add: extract_matched_def extract_tokens_words spec_extract_deleting_periods_def)
  qed
  have d: "cli_tokens lower line
       = map (\<lambda>f. map (\<lambda>c. if c = py_ord (CHR '' '') then py_ord (CHR ''_'') else c)
                     (lower (py_strip f)))
           (py_split_on (py_ord (CHR '','')) line)"
    by (simp add: cli_tokens_def py_replace_char cps_def)
  have e: "py_join [py_ord (CHR '','')] (py_split_on (py_ord (CHR '','')) line) = line"
    by (rule join_split_on)
  have f: "\<forall>f \<in> set (py_split_on (py_ord (CHR '','')) line). py_ord (CHR '','') \<notin> set f"
    using split_on_no_sep by blast
  have g: "length (cli_tokens lower line)
       = Suc (length (filter (\<lambda>c. c = py_ord (CHR '','')) line))"
    by (simp add: cli_tokens_def length_split_on)
  from a b d e f g show ?thesis by blast
qed

lemma strip_witness:
  "py_strip ([0xA0] @ cps ''Fever, cough. Rash '') = cps ''Fever, cough. Rash''"
  by (simp add: py_strip_def py_isspace_def cps_def py_ord_def)

lemma ascii_lower_witness:
  "ascii_lower (cps ''Fever, cough. Rash'') = cps ''fever, cough. rash''"
  by (simp add: ascii_lower_def cps_def py_ord_def)

lemma ascii_lower_strip_witness:
  "py_strip (ascii_lower ([0xA0] @ cps ''Fever, cough. Rash '')) = cps ''fever, cough. rash''"
  by (simp add: ascii_lower_def py_strip_def py_isspace_def cps_def py_ord_def)

lemma words_witness:
  "extract_words (cps ''fever, cough. rash'') = [cps ''fever'', cps ''cough'', cps ''rash'']"
  by (simp add: extract_words_def py_split_def py_isspace_def cps_def py_ord_def)

lemma matched_witness:
  "extract_matched (cps ''fever, cough. rash'') = [cps ''fever'', cps ''cough'', cps ''rash'']"
  by (simp add: extract_matched_def extract_tokens_words words_witness SYMPTOMS_def cps_simps)

lemma cli_tokens_witness:
  "cli_tokens ascii_lower (cps ''Chest Pain, fever'') = [cps ''chest_pain'', cps ''fever'']"
  by (simp add: cli_tokens_def py_strip_def ascii_lower_def py_isspace_def cps_def py_ord_def)

theorem C6_extraction_deletes_periods_witness:
  "py_strip (ascii_lower ([0xA0] @ cps ''Fever, cough. Rash ''))
     = ascii_lower (py_strip ([0xA0] @ cps ''Fever, cough. Rash ''))
   \<and> extract_matched (ascii_lower (py_strip ([0xA0] @ cps ''Fever, cough. Rash '')))
       = [cps ''fever'', cps ''cough'', cps ''rash'']
   \<and> spec_extract_deleting_periods ascii_lower ([0xA0] @ cps ''Fever, cough. Rash '')
       = [cps ''fever'', cps ''cough'', cps ''rash'']
   \<and> cli_tokens ascii_lower (cps ''Chest Pain, fever'') = [cps ''chest_pain'', cps ''fever'']
   \<and> length (cli_tokens ascii_lower (cps ''Chest Pain, fever''))
       = Suc (length (filter (\<lambda>c. c = py_ord (CHR '','')) (cps ''Chest Pain, fever'')))"
proof -
  let ?raw = "[0xA0] @ cps ''Fever, cough. Rash ''"
  note t = C6_extraction_deletes_periods [of ascii_lower ?raw "cps ''Chest Pain, fever''"]
  have h: "py_strip (ascii_lower ?raw) = ascii_lower (py_strip ?raw)"
    unfolding ascii_lower_strip_witness strip_witness ascii_lower_witness by (rule refl)
  have m: "extract_matched (ascii_lower (py_strip ?raw))
             = [cps ''fever'', cps ''cough'', cps ''rash'']"
    unfolding strip_witness ascii_lower_witness by (rule matched_witness)
  from t h have "extract_matched (ascii_lower (py_strip ?raw))
                   = spec_extract_deleting_periods ascii_lower ?raw"
    by blast
  with m have s: "spec_extract_deleting_periods ascii_lower ?raw
                    = [cps ''fever'', cps ''cough'', cps ''rash'']"
    by simp
  from t have l: "length (cli_tokens ascii_lower (cps ''Chest Pain, fever''))
       = Suc (length (filter (\<lambda>c. c = py_ord (CHR '','')) (cps ''Chest Pain, fever'')))"
    by (elim conjE)
  from h m s cli_tokens_witness l show ?thesis by (intro conjI)
qed

section \<open>The chat handler: intercepts and the Symptom phase\<close>

lemma emergency_check_cases:
  "emergency_check toks = (False, None) \<or> (\<exists>t. emergency_check toks = (True, Some t))"
  by (auto simp: emergency_check_def split: option.splits)


lemma emergency_check_Nil: "emergency_check [] = (False, None)"
  by (simp add: emergency_check_def)


lemma negations_match_nothing: "list_all (\<lambda>u. extract_matched u = []) negation_phrases"
  by (simp add: negation_phrases_def extract_matched_def extract_tokens_words extract_words_def
      py_split_def py_isspace_def SYMPTOMS_def cps_def py_ord_def)


lemma matched_negations: "u \<in> set negation_phrases \<Longrightarrow> extract_matched u = []"
  using negations_match_nothing unfolding list_all_iff by blast

lemma symptom_step_emergency:
  assumes "emergency_check (extract_matched u) = (True, Some t)"
  shows "symptom_step lower s u = Inr (EmergencyReply t (get_emergency_advice lower t), s)"
proof -
  from assms have m: "extract_matched u \<noteq> []"
    using emergency_check_Nil by auto
  with matched_negations have "u \<notin> set negation_phrases" by blast
  with m assms show ?thesis
    by (simp add: symptom_step_def)
qed



lemma emergency_check_cd:
  "emergency_check [cps ''chest_pain'', cps ''dizziness''] = (True, Some compound_label)"
  by (simp add: emergency_check_def emergency_terms_def cps_simps)







lemma advice_compound: "get_emergency_advice ascii_lower compound_label = CriticalAdvice"
  by (simp add: get_emergency_advice_def compound_label_def ascii_lower_def cps_def py_ord_def)


lemma no_farewell_list:
  "\<not> list_ex (\<lambda>word. py_contains (cps ''list'') word) farewell_words"
  by (simp add: farewell_words_def cps_def py_ord_def)

text \<open>
  C7. When the input, stripped and lowercased, is \<open>list\<close>, the reply is the list reply
  with the vocabulary joined by \<open>", "\<close>, and the session is the one before the turn,
  whatever it holds.
\<close>

theorem C7_list_command:
  assumes "lower (py_strip message) = cps ''list''"
  shows "chat lower model le s message = Inr (SymptomList (py_join (cps '', '') SYMPTOMS), s)"
  unfolding chat_def assms Let_def
  by (simp add: no_farewell_list greeting_words_def cps_simps del: py_contains.simps)

lemma norm_list: "ascii_lower (py_strip ([0xA0] @ cps ''LiSt'' @ [0x2003, 0x20])) = cps ''list''"
  by (simp add: py_strip_def py_isspace_def ascii_lower_def cps_def py_ord_def)

lemma joined_symptoms:
  "py_join (cps '', '') SYMPTOMS =
     cps ''fever, cough, sore_throat, runny_nose, headache, fatigue, nausea, vomiting, diarrhea, abdominal_pain, chest_pain, shortness_of_breath, dizziness, leg_swelling, bleeding, rash, joint_pain, loss_of_smell, loss_of_taste, sore_eyes''"
  by (simp add: SYMPTOMS_def cps_def)

theorem C7_list_command_witness:
  "ascii_lower (py_strip ([0xA0] @ cps ''LiSt'' @ [0x2003, 0x20])) = cps ''list''
   \<and> chat ascii_lower stub_model stub_le
        \<lparr>step = Some (cps ''severity''), tokens = Some [cps ''cough''],
          duration = Some (cps ''2 days''), severity = None, preds = None\<rparr>
        ([0xA0] @ cps ''LiSt'' @ [0x2003, 0x20])
       = Inr (SymptomList (cps ''fever, cough, sore_throat, runny_nose, headache, fatigue, nausea, vomiting, diarrhea, abdominal_pain, chest_pain, shortness_of_breath, dizziness, leg_swelling, bleeding, rash, joint_pain, loss_of_smell, loss_of_taste, sore_eyes''),
              \<lparr>step = Some (cps ''severity''), tokens = Some [cps ''cough''],
                duration = Some (cps ''2 days''), severity = None, preds = None\<rparr>)"
proof -
  have h: "ascii_lower (py_strip ([0xA0] @ cps ''LiSt'' @ [0x2003, 0x20])) = cps ''list''"
    by (rule norm_list)
  from C7_list_command [where lower = ascii_lower and model = stub_model and le = stub_le, OF h] h
  show ?thesis
    unfolding joined_symptoms by (intro conjI)
qed

lemma terms_not_in_vocabulary: "\<forall>t \<in> set emergency_terms. t \<notin> set SYMPTOMS"
  by (simp add: emergency_terms_def SYMPTOMS_def cps_simps)

lemma matched_in_vocabulary: "set (extract_matched u) \<subseteq> set SYMPTOMS"
  by (auto simp: extract_matched_def)

lemma scan_terms_matched: "scan_terms (extract_matched u) = None"
  unfolding scan_terms_None using terms_not_in_vocabulary matched_in_vocabulary by blast

lemma emergency_check_matched:
  assumes "emergency_check (extract_matched u) = (True, Some t)"
  shows "t = compound_label \<and> cps ''chest_pain'' \<in> set (extract_matched u)
         \<and> (cps ''shortness_of_breath'' \<in> set (extract_matched u)
              \<or> cps ''dizziness'' \<in> set (extract_matched u))"
  using assms by (simp add: emergency_check_def scan_terms_matched split: if_splits)

lemma symptom_step_emergency_reply:
  assumes "symptom_step lower s u = Inr (EmergencyReply t a, s')"
  shows "emergency_check (extract_matched u) = (True, Some t)"
  using assms
  by (auto simp: symptom_step_def Let_def split: if_splits prod.splits bool.splits option.splits)

lemma chat_emergency_reply:
  assumes "chat lower model le s message = Inr (EmergencyReply t a, s')"
  shows "symptom_step lower s (lower (py_strip message)) = Inr (EmergencyReply t a, s')"
  using assms
  by (auto simp: chat_def Let_def duration_step_def severity_step_def ask_recommendations_step_def
      more_symptoms_step_def simp del: py_contains.simps split: if_splits option.splits)

text \<open>
  C9. No direct critical term is in the Symptom Vocabulary, the tokens that the Symptom
  handler passes to \<open>emergency_check\<close> are all in the vocabulary, so the scan for a direct
  term finds nothing on them; and whenever a turn of \<open>chat\<close> replies with an emergency,
  the matched term is the compound label and the compound rule's tokens were matched.
\<close>

theorem C9_only_compound_rule_fires:
  "(\<forall>t \<in> set emergency_terms. t \<notin> set SYMPTOMS)
   \<and> set (extract_matched u) \<subseteq> set SYMPTOMS
   \<and> scan_terms (extract_matched u) = None
   \<and> (chat lower model le s message = Inr (EmergencyReply t a, s') \<longrightarrow>
        t = compound_label
        \<and> cps ''chest_pain'' \<in> set (extract_matched (lower (py_strip message)))
        \<and> (cps ''shortness_of_breath'' \<in> set (extract_matched (lower (py_strip message)))
             \<or> cps ''dizziness'' \<in> set (extract_matched (lower (py_strip message)))))"
proof -
  have "chat lower model le s message = Inr (EmergencyReply t a, s') \<longrightarrow>
        t = compound_label
        \<and> cps ''chest_pain'' \<in> set (extract_matched (lower (py_strip message)))
        \<and> (cps ''shortness_of_breath'' \<in> set (extract_matched (lower (py_strip message)))
             \<or> cps ''dizziness'' \<in> set (extract_matched (lower (py_strip message))))"
    using chat_emergency_reply symptom_step_emergency_reply emergency_check_matched by blast
  with terms_not_in_vocabulary matched_in_vocabulary scan_terms_matched show ?thesis
    by blast
qed

lemma norm_scd:
  "ascii_lower (py_strip (cps ''stroke chest_pain dizziness'')) = cps ''stroke chest_pain dizziness''"
  by (simp add: py_strip_def py_isspace_def ascii_lower_def cps_def py_ord_def)

lemma matched_scd:
  "extract_matched (cps ''stroke chest_pain dizziness'') = [cps ''chest_pain'', cps ''dizziness'']"
  by (simp add: extract_matched_def extract_tokens_words extract_words_def py_split_def
      py_isspace_def SYMPTOMS_def cps_def py_ord_def)

lemma no_farewell_scd:
  "\<not> list_ex (\<lambda>word. py_contains (cps ''stroke chest_pain dizziness'') word) farewell_words"
  by (simp add: farewell_words_def cps_def py_ord_def)

lemma chat_scd:
  "chat ascii_lower stub_model stub_le empty_session (cps ''stroke chest_pain dizziness'')
     = Inr (EmergencyReply compound_label CriticalAdvice, empty_session)"
proof -
  have "chat ascii_lower stub_model stub_le empty_session (cps ''stroke chest_pain dizziness'')
          = symptom_step ascii_lower empty_session (cps ''stroke chest_pain dizziness'')"
    unfolding chat_def norm_scd Let_def
    by (simp add: no_farewell_scd greeting_words_def empty_session_def cps_simps
        del: py_contains.simps)
  also have "\<dots> = Inr (EmergencyReply compound_label
                         (get_emergency_advice ascii_lower compound_label), empty_session)"
    by (rule symptom_step_emergency) (simp add: matched_scd emergency_check_cd)
  finally show ?thesis by (simp add: advice_compound)
qed

theorem C9_only_compound_rule_fires_witness:
  "cps ''stroke'' \<in> set emergency_terms \<and> cps ''stroke'' \<notin> set SYMPTOMS
   \<and> extract_matched (ascii_lower (py_strip (cps ''stroke chest_pain dizziness'')))
       = [cps ''chest_pain'', cps ''dizziness'']
   \<and> chat ascii_lower stub_model stub_le empty_session (cps ''stroke chest_pain dizziness'')
       = Inr (EmergencyReply compound_label CriticalAdvice, empty_session)
   \<and> cps ''chest_pain''
       \<in> set (extract_matched (ascii_lower (py_strip (cps ''stroke chest_pain dizziness''))))"
proof -
  note w = C9_only_compound_rule_fires
    [where u = "cps ''stroke chest_pain dizziness''" and lower = ascii_lower
       and model = stub_model and le = stub_le and s = empty_session
       and message = "cps ''stroke chest_pain dizziness''" and t = compound_label
       and a = CriticalAdvice and s' = empty_session]
  have a: "cps ''stroke'' \<in> set emergency_terms" by (simp add: emergency_terms_def cps_simps)
  from w a have b: "cps ''stroke'' \<notin> set SYMPTOMS" by blast
  have c: "extract_matched (ascii_lower (py_strip (cps ''stroke chest_pain dizziness'')))
       = [cps ''chest_pain'', cps ''dizziness'']"
    unfolding norm_scd by (rule matched_scd)
  from w chat_scd
  have d: "cps ''chest_pain''
       \<in> set (extract_matched (ascii_lower (py_strip (cps ''stroke chest_pain dizziness''))))"
    by blast
  from a b c d chat_scd show ?thesis by (intro conjI)
qed

section \<open>Conversations: the stored tokens\<close>

lemma session_inv_empty: "session_inv empty_session"
  by (simp add: session_inv_def empty_session_def)

lemma symptom_step_inv:
  assumes "session_inv s" and "symptom_step lower s u = Inr (r, s')"
    and "(case step s of Some x \<Rightarrow> x | None \<Rightarrow> cps ''symptom'') = cps ''symptom''"
  shows "session_inv s'"
proof -
  have m: "list_all (\<lambda>t. t \<in> set SYMPTOMS) (extract_matched u)"
    by (simp add: extract_matched_def list_all_iff)
  from assms(2) have "s' = s \<or> s' = empty_session
      \<or> (extract_matched u \<noteq> []
          \<and> s' = s\<lparr>tokens := Some (extract_matched u), step := Some (cps ''duration'')\<rparr>)"
    by (auto simp: symptom_step_def Let_def
        split: if_splits prod.splits bool.splits option.splits)
  then show ?thesis
    using assms(1) m session_inv_empty
    by (auto simp: session_inv_def tokens_stored_def cps_simps)
qed

lemma symptom_step_no_error: "\<exists>r s'. symptom_step lower s u = Inr (r, s')"
  using emergency_check_cases [of "extract_matched u"]
  by (auto simp: symptom_step_def Let_def)

lemma duration_step_inv:
  assumes "session_inv s" and "step s = Some (cps ''duration'')"
  shows "session_inv (snd (duration_step s u))"
  using assms by (simp add: duration_step_def session_inv_def tokens_stored_def cps_simps)

lemma severity_step_inv:
  assumes "severity_step model le s u = Inr (r, s')"
  shows "session_inv s'"
  using assms
  by (auto simp: severity_step_def session_inv_def Let_def cps_simps split: option.splits)

lemma severity_step_no_error:
  assumes "session_inv s" and "step s = Some (cps ''severity'')"
  shows "\<exists>r s'. severity_step model le s u = Inr (r, s')"
  using assms
  by (auto simp: severity_step_def session_inv_def tokens_stored_def Let_def split: option.splits)

lemma ask_recommendations_step_inv:
  assumes "session_inv s" shows "session_inv (snd (ask_recommendations_step s u))"
  using assms
  by (simp add: ask_recommendations_step_def session_inv_def cps_simps del: py_contains.simps)

lemma more_symptoms_step_inv:
  "session_inv (snd (more_symptoms_step s u))"
  using session_inv_empty
  by (simp add: more_symptoms_step_def session_inv_def cps_simps del: py_contains.simps)

lemma chat_inv:
  assumes "session_inv s" and "chat lower model le s message = Inr (r, s')"
  shows "session_inv s'"
proof -
  define u where "u = lower (py_strip message)"
  define st where "st = (case step s of Some x \<Rightarrow> x | None \<Rightarrow> cps ''symptom'')"
  have hello: "session_inv (empty_session\<lparr>step := Some (cps ''symptom'')\<rparr>)"
    by (simp add: session_inv_def cps_simps)
  consider (same) "s' = s" | (clear) "s' = empty_session"
    | (hello) "s' = empty_session\<lparr>step := Some (cps ''symptom'')\<rparr>"
    | (symptom) "st = cps ''symptom''" "symptom_step lower s u = Inr (r, s')"
    | (duration) "st = cps ''duration''" "s' = snd (duration_step s u)"
    | (severity) "severity_step model le s u = Inr (r, s')"
    | (ask) "s' = snd (ask_recommendations_step s u)"
    | (more) "s' = snd (more_symptoms_step s u)"
    using assms(2) unfolding chat_def Let_def u_def [symmetric] st_def [symmetric]
    by (auto simp del: py_contains.simps split: if_splits)
  then show ?thesis
  proof cases
    case same
    with assms(1) show ?thesis by simp
  next
    case clear
    then show ?thesis by (simp add: session_inv_empty)
  next
    case hello
    then show ?thesis by (simp add: session_inv_def cps_simps)
  next
    case symptom
    with assms(1) show ?thesis
      by (auto intro: symptom_step_inv simp: st_def)
  next
    case duration
    from duration(1) have "step s = Some (cps ''duration'')"
      by (auto simp: st_def cps_simps split: option.splits)
    with assms(1) duration(2) show ?thesis by (simp add: duration_step_inv)
  next
    case severity
    then show ?thesis by (rule severity_step_inv)
  next
    case ask
    with assms(1) show ?thesis by (simp add: ask_recommendations_step_inv)
  next
    case more
    then show ?thesis by (simp add: more_symptoms_step_inv)
  qed
qed

lemma chat_no_error:
  assumes "session_inv s"
  shows "\<exists>r s'. chat lower model le s message = Inr (r, s')"
proof -
  define u where "u = lower (py_strip message)"
  define st where "st = (case step s of Some x \<Rightarrow> x | None \<Rightarrow> cps ''symptom'')"
  have sev: "st = cps ''severity'' \<Longrightarrow> \<exists>r s'. severity_step model le s u = Inr (r, s')"
  proof -
    assume "st = cps ''severity''"
    then have "step s = Some (cps ''severity'')"
      by (auto simp: st_def cps_simps split: option.splits)
    with assms show ?thesis by (rule severity_step_no_error)
  qed
  show ?thesis
    unfolding chat_def Let_def u_def [symmetric] st_def [symmetric]
    using sev symptom_step_no_error [of lower s u]
    by (auto simp del: py_contains.simps)
qed

lemma run_inv:
  "session_inv s \<Longrightarrow> \<exists>s'. run lower model le s reqs = Inr s' \<and> session_inv s'"
proof (induction reqs arbitrary: s)
  case Nil
  then show ?case by simp
next
  case (Cons q reqs)
  show ?case
  proof (cases q)
    case Index
    with Cons.IH [OF session_inv_empty] show ?thesis by simp
  next
    case (Chat message)
    from Cons.prems obtain r s1 where c: "chat lower model le s message = Inr (r, s1)"
      using chat_no_error by blast
    with Cons.prems have "session_inv s1" by (rule chat_inv)
    from Cons.IH [OF this] c Chat show ?thesis by simp
  qed
qed

text \<open>
  C10. Every sequence of requests to \<open>/\<close> and \<open>/chat\<close> from the fresh session runs without
  an exception. In the session it reaches, if the stored step is \<open>severity\<close> then the key
  \<open>tokens\<close> is present and holds a non-empty list of vocabulary tokens, and the next turn,
  whatever its message, returns a reply: the lookup \<open>session["tokens"]\<close> of the Severity
  handler does not fail.
\<close>

theorem C10_severity_has_tokens:
  "\<exists>s. run lower model le empty_session reqs = Inr s
     \<and> (step s = Some (cps ''severity'') \<longrightarrow>
          (\<exists>toks. tokens s = Some toks \<and> toks \<noteq> [] \<and> set toks \<subseteq> set SYMPTOMS))
     \<and> (\<forall>message. \<exists>r s'. chat lower model le s message = Inr (r, s'))"
proof -
  obtain s where r: "run lower model le empty_session reqs = Inr s" and i: "session_inv s"
    using run_inv [OF session_inv_empty] by blast
  from i have "step s = Some (cps ''severity'') \<longrightarrow>
          (\<exists>toks. tokens s = Some toks \<and> toks \<noteq> [] \<and> set toks \<subseteq> set SYMPTOMS)"
    by (auto simp: session_inv_def tokens_stored_def list_all_iff split: option.splits)
  moreover from i have "\<forall>message. \<exists>r s'. chat lower model le s message = Inr (r, s')"
    using chat_no_error by blast
  ultimately show ?thesis using r by blast
qed

lemma norm_fc: "ascii_lower (py_strip (cps ''Fever and cough'')) = cps ''fever and cough''"
  by (simp add: py_strip_def py_isspace_def ascii_lower_def cps_def py_ord_def)

lemma matched_fc: "extract_matched (cps ''fever and cough'') = [cps ''fever'', cps ''cough'']"
  by (simp add: extract_matched_def extract_tokens_words extract_words_def py_split_def
      py_isspace_def SYMPTOMS_def cps_def py_ord_def)

lemma no_farewell_fc:
  "\<not> list_ex (\<lambda>word. py_contains (cps ''fever and cough'') word) farewell_words"
  by (simp add: farewell_words_def cps_def py_ord_def)

lemma emergency_check_fc: "emergency_check [cps ''fever'', cps ''cough''] = (False, None)"
  by (simp add: emergency_check_def emergency_terms_def cps_simps)

lemma fc_no_negation: "cps ''fever and cough'' \<notin> set negation_phrases"
  using matched_negations [of "cps ''fever and cough''"] matched_fc by auto

lemma chat_fc:
  "chat ascii_lower stub_model stub_le empty_session (cps ''Fever and cough'')
     = Inr (AskDuration,
            \<lparr>step = Some (cps ''duration''), tokens = Some [cps ''fever'', cps ''cough''],
              duration = None, severity = None, preds = None\<rparr>)"
proof -
  have "chat ascii_lower stub_model stub_le empty_session (cps ''Fever and cough'')
          = symptom_step ascii_lower empty_session (cps ''fever and cough'')"
    unfolding chat_def norm_fc Let_def
    by (simp add: no_farewell_fc greeting_words_def empty_session_def cps_simps
        del: py_contains.simps)
  also have "\<dots> = Inr (AskDuration,
            \<lparr>step = Some (cps ''duration''), tokens = Some [cps ''fever'', cps ''cough''],
              duration = None, severity = None, preds = None\<rparr>)"
    by (simp add: symptom_step_def matched_fc emergency_check_fc fc_no_negation
        empty_session_def)
  finally show ?thesis .
qed

lemma norm_2d: "ascii_lower (py_strip (cps ''2 days'')) = cps ''2 days''"
  by (simp add: py_strip_def py_isspace_def ascii_lower_def cps_def py_ord_def)

lemma no_farewell_2d:
  "\<not> list_ex (\<lambda>word. py_contains (cps ''2 days'') word) farewell_words"
  by (simp add: farewell_words_def cps_def py_ord_def)

lemma chat_2d:
  "chat ascii_lower stub_model stub_le
     \<lparr>step = Some (cps ''duration''), tokens = Some [cps ''fever'', cps ''cough''],
       duration = None, severity = None, preds = None\<rparr> (cps ''2 days'')
     = Inr (AskSeverity,
            \<lparr>step = Some (cps ''severity''), tokens = Some [cps ''fever'', cps ''cough''],
              duration = Some (cps ''2 days''), severity = None, preds = None\<rparr>)"
  unfolding chat_def norm_2d Let_def
  by (simp add: no_farewell_2d greeting_words_def duration_step_def cps_simps
      del: py_contains.simps)

lemma run_fc_2d:
  "run ascii_lower stub_model stub_le empty_session
     [Chat (cps ''Fever and cough''), Chat (cps ''2 days'')]
     = Inr \<lparr>step = Some (cps ''severity''), tokens = Some [cps ''fever'', cps ''cough''],
            duration = Some (cps ''2 days''), severity = None, preds = None\<rparr>"
  by (simp add: chat_fc chat_2d)

theorem C10_severity_has_tokens_witness:
  "run ascii_lower stub_model stub_le empty_session
     [Chat (cps ''Fever and cough''), Chat (cps ''2 days'')]
     = Inr \<lparr>step = Some (cps ''severity''), tokens = Some [cps ''fever'', cps ''cough''],
            duration = Some (cps ''2 days''), severity = None, preds = None\<rparr>
   \<and> (\<exists>toks. tokens \<lparr>step = Some (cps ''severity''),
                       tokens = Some [cps ''fever'', cps ''cough''],
                       duration = Some (cps ''2 days''), severity = None, preds = None\<rparr>
                 = Some toks
          \<and> toks \<noteq> [] \<and> set toks \<subseteq> set SYMPTOMS)
   \<and> (\<exists>r s'. chat ascii_lower stub_model stub_le
                 \<lparr>step = Some (cps ''severity''), tokens = Some [cps ''fever'', cps ''cough''],
                   duration = Some (cps ''2 days''), severity = None, preds = None\<rparr>
                 (cps ''7'')
               = Inr (r, s'))"
proof -
  let ?S = "\<lparr>step = Some (cps ''severity''), tokens = Some [cps ''fever'', cps ''cough''],
             duration = Some (cps ''2 days''), severity = None, preds = None\<rparr>"
  obtain s where r: "run ascii_lower stub_model stub_le empty_session
                       [Chat (cps ''Fever and cough''), Chat (cps ''2 days'')] = Inr s"
    and t: "step s = Some (cps ''severity'') \<longrightarrow>
          (\<exists>toks. tokens s = Some toks \<and> toks \<noteq> [] \<and> set toks \<subseteq> set SYMPTOMS)"
    and c: "\<forall>message. \<exists>r s'. chat ascii_lower stub_model stub_le s message = Inr (r, s')"
    using C10_severity_has_tokens
      [of ascii_lower stub_model stub_le "[Chat (cps ''Fever and cough''), Chat (cps ''2 days'')]"]
    by blast
  from r have s: "s = ?S" unfolding run_fc_2d by simp
  from t have t': "\<exists>toks. tokens ?S = Some toks \<and> toks \<noteq> [] \<and> set toks \<subseteq> set SYMPTOMS"
    unfolding s by simp
  from c have c': "\<exists>r s'. chat ascii_lower stub_model stub_le ?S (cps ''7'') = Inr (r, s')"
    unfolding s by blast
  from run_fc_2d t' c' show ?thesis by (intro conjI)
qed

end
